theory Spec2Isabelle
  imports Main "HOL-Library.Log_Nat" "HOL-Library.Product_Lexorder"
begin

section \<open>ColorPeek: the palette extractor of \<open>app.py\<close>\<close>

text \<open>
  The development embeds \<open>extract_palette_pillow\<close> (\<open>app.py\<close>, lines 39 to 117). The
  function works on Pillow image objects: it copies the caller's image, shrinks the copy in
  place, flattens transparency onto a white canvas, asks Pillow for an adaptive palette, and
  then ranks and formats the palette entries itself (lines 82 to 117).

  Pillow is a library and not part of the repository. Its two algorithmic primitives, the
  resampling filter behind \<open>thumbnail\<close> and the adaptive quantizer behind
  \<open>convert('P', palette=ADAPTIVE, colors=k)\<close>, are parameters of the model (record
  \<open>pillow\<close>). The simple accessors (\<open>copy\<close>, \<open>Image.new\<close>, \<open>split\<close>, \<open>paste\<close>,
  \<open>convert('RGB')\<close>, \<open>getcolors\<close>) are written out.
\<close>

subsection \<open>Errors\<close>

datatype error = IndexError | ZeroDivisionError

subsection \<open>Python floats\<close>

text \<open>
  \<open>percent = round((count / total) * 100, 2)\<close> is computed on binary64 floats. A float
  is represented by the rational number it denotes. \<open>to_double\<close> rounds a rational to
  the nearest binary64 value (53 significant bits, ties to even); only non-negative values in
  the normal range occur here. Division and multiplication are correctly rounded, and
  \<open>round(x, 2)\<close> on a float is the correctly rounded decimal with two digits (ties to even
  on the exact value of \<open>x\<close>) converted back to a float.
\<close>

definition round_half_even :: "rat \<Rightarrow> int" where
  "round_half_even q =
     (let f = \<lfloor>q\<rfloor>; d = q - of_int f
      in if d < 1 / 2 then f else if 1 / 2 < d then f + 1 else if even f then f else f + 1)"

definition pow2 :: "int \<Rightarrow> rat" where
  "pow2 e = (if 0 \<le> e then 2 ^ nat e else 1 / 2 ^ nat (- e))"

definition ilog2 :: "rat \<Rightarrow> int" where
  "ilog2 q = (let (a, b) = quotient_of q; d = bitlen a - bitlen b
              in if pow2 d \<le> q then d else d - 1)"

definition to_double :: "rat \<Rightarrow> rat" where
  "to_double q =
     (if q \<le> 0 then 0
      else let e = ilog2 q - 52 in rat_of_int (round_half_even (q / pow2 e)) * pow2 e)"

definition fdiv :: "nat \<Rightarrow> nat \<Rightarrow> rat" where
  "fdiv a b = to_double (of_nat a / of_nat b)"

definition fmul :: "rat \<Rightarrow> rat \<Rightarrow> rat" where
  "fmul x y = to_double (x * y)"

definition py_round :: "rat \<Rightarrow> nat \<Rightarrow> rat" where
  "py_round x ndigits =
     to_double (rat_of_int (round_half_even (x * 10 ^ ndigits)) / 10 ^ ndigits)"

subsection \<open>Images and the object store\<close>

text \<open>
  An image object carries its mode, its size, whether \<open>'transparency'\<close> is a key of
  \<open>image.info\<close>, and its pixels. The pixels are kept in the form
  \<open>image.convert("RGBA")\<close> shows them, row by row: for an opaque mode the alpha
  component is 255, for mode \<open>LA\<close> the three colour components repeat the luminance, for
  mode \<open>P\<close> they are the palette colours of the indices.
\<close>

datatype mode = Mode_RGB | Mode_RGBA | Mode_LA | Mode_L | Mode_P

type_synonym rgb = "nat \<times> nat \<times> nat"

type_synonym rgba = "nat \<times> nat \<times> nat \<times> nat"

record image =
  im_mode :: mode
  im_size :: "nat \<times> nat"
  im_transparency :: bool
  im_data :: "rgba list"

text \<open>
  Image objects are mutable and shared by reference: \<open>thumbnail\<close> and \<open>paste\<close> change
  the object they are called on. The store is the list of all image objects, a reference is
  a position in it (below the length of the store), and a new object is appended.
\<close>

type_synonym ref = nat

type_synonym heap = "image list"

record pillow =
  resize :: "image \<Rightarrow> nat \<times> nat \<Rightarrow> image"
  quantize :: "rgb list \<Rightarrow> nat \<Rightarrow> nat list \<times> nat list"

text \<open>
  \<open>resize env im box\<close> is the resampled image \<open>thumbnail\<close> installs when \<open>im\<close> does
  not fit into \<open>box\<close>. \<open>quantize env pixels k\<close> is the paletted image of
  \<open>convert('P', palette=Image.ADAPTIVE, colors=k)\<close>: the flat list
  \<open>[r0, g0, b0, r1, g1, b1, ...]\<close> that \<open>getpalette()\<close> returns, and the palette index of
  every pixel.
\<close>

definition copy :: "ref \<Rightarrow> heap \<Rightarrow> ref \<times> heap" where
  "copy r h = (length h, h @ [h ! r])"

definition thumbnail :: "pillow \<Rightarrow> ref \<Rightarrow> nat \<times> nat \<Rightarrow> heap \<Rightarrow> heap" where
  "thumbnail env r box h =
     (let im = h ! r
      in if fst (im_size im) \<le> fst box \<and> snd (im_size im) \<le> snd box then h
         else h[r := resize env im box])"

definition new_rgb :: "nat \<times> nat \<Rightarrow> rgb \<Rightarrow> heap \<Rightarrow> ref \<times> heap" where
  "new_rgb sz c h =
     (length h,
      h @ [\<lparr>im_mode = Mode_RGB, im_size = sz, im_transparency = False,
             im_data = replicate (fst sz * snd sz) (fst c, fst (snd c), snd (snd c), 255)\<rparr>])"

definition alpha_band :: "image \<Rightarrow> nat list" where
  "alpha_band im = map (\<lambda>(r, g, b, a). a) (im_data im)"

text \<open>
  Modelled from the spec: Pillow's \<open>paste\<close> with a mask is library code outside the
  repository. Per channel the pasted value is \<open>source * alpha + canvas * (1 - alpha)\<close> with
  \<open>alpha\<close> the mask value divided by 255, rounded to the nearest 8-bit value.
\<close>

definition blend :: "nat \<Rightarrow> nat \<Rightarrow> nat \<Rightarrow> nat" where
  "blend a canvas source = (2 * (source * a + canvas * (255 - a)) + 255) div 510"

definition paste :: "ref \<Rightarrow> image \<Rightarrow> nat list \<Rightarrow> heap \<Rightarrow> heap" where
  "paste r im alpha h =
     h[r := (h ! r)\<lparr>im_data :=
         map (\<lambda>((cr, cg, cb, ca), (sr, sg, sb, sa), m).
                (blend m cr sr, blend m cg sg, blend m cb sb, ca))
             (zip (im_data (h ! r)) (zip (im_data im) alpha))\<rparr>]"

definition convert_rgb :: "ref \<Rightarrow> heap \<Rightarrow> ref \<times> heap" where
  "convert_rgb r h =
     (length h,
      h @ [\<lparr>im_mode = Mode_RGB, im_size = im_size (h ! r), im_transparency = False,
             im_data = map (\<lambda>(r, g, b, a). (r, g, b, 255)) (im_data (h ! r))\<rparr>])"

definition rgb_pixels :: "image \<Rightarrow> rgb list" where
  "rgb_pixels im = map (\<lambda>(r, g, b, a). (r, g, b)) (im_data im)"

subsection \<open>Counting, ranking and formatting\<close>

text \<open>
  \<open>getcolors()\<close> on a paletted image reads the histogram of the 256 palette indices and
  lists \<open>(count, index)\<close> for every index with a non-zero count, by increasing index.
\<close>

definition getcolors :: "nat list \<Rightarrow> (nat \<times> nat) list" where
  "getcolors idxs =
     map (\<lambda>i. (count_list idxs i, i)) (filter (\<lambda>i. count_list idxs i \<noteq> 0) [0..<256])"

text \<open>
  \<open>color_counts.sort(reverse=True)\<close> orders the tuples by decreasing count and, for equal
  counts, by decreasing index (tuples compare lexicographically). Two distinct tuples never
  compare equal, so stability of the sort plays no role.
\<close>

definition sort_reverse :: "(nat \<times> nat) list \<Rightarrow> (nat \<times> nat) list" where
  "sort_reverse xs = rev (sort xs)"

record color_record =
  hex :: string
  rgb :: rgb
  count :: nat
  percent :: rat

definition hex_digit :: "nat \<Rightarrow> char" where
  "hex_digit d = ''0123456789abcdef'' ! d"

fun hex_digits :: "nat \<Rightarrow> string" where
  "hex_digits n = (if n < 16 then [hex_digit n] else hex_digits (n div 16) @ [hex_digit (n mod 16)])"

definition fmt_02x :: "nat \<Rightarrow> string" where
  "fmt_02x n = (let s = hex_digits n in if length s < 2 then ''0'' @ s else s)"

text \<open>Lines 96 to 115: the body of the loop for one \<open>(count, idx)\<close> pair.\<close>

definition color_details :: "nat list \<Rightarrow> nat \<Rightarrow> nat \<times> nat \<Rightarrow> error + color_record" where
  "color_details palette total_count ci =
     (let (cnt, idx) = ci
      in if length palette \<le> idx * 3 + 2 then Inl IndexError
         else let r = palette ! (idx * 3);
                  g = palette ! (idx * 3 + 1);
                  b = palette ! (idx * 3 + 2);
                  hexcode = ''#'' @ fmt_02x r @ fmt_02x g @ fmt_02x b
              in if total_count = 0 then Inl ZeroDivisionError
                 else Inr \<lparr>hex = hexcode, rgb = (r, g, b), count = cnt,
                           percent = py_round (fmul (fdiv cnt total_count) 100) 2\<rparr>)"

text \<open>Lines 92 to 117: \<open>for i in range(num_colors)\<close>, appending to \<open>results\<close>.\<close>

fun top_colors ::
  "nat list \<Rightarrow> (nat \<times> nat) list \<Rightarrow> nat \<Rightarrow> nat list \<Rightarrow> color_record list
     \<Rightarrow> error + color_record list" where
  "top_colors palette color_counts total_count [] results = Inr results"
| "top_colors palette color_counts total_count (i # is) results =
     (if length color_counts \<le> i then Inl IndexError
      else case color_details palette total_count (color_counts ! i) of
             Inl e \<Rightarrow> Inl e
           | Inr d \<Rightarrow> top_colors palette color_counts total_count is (results @ [d]))"

text \<open>Lines 79 to 117, from the palette and the index map of the paletted image.\<close>

definition rank_and_format :: "nat list \<Rightarrow> nat list \<Rightarrow> nat \<Rightarrow> error + color_record list" where
  "rank_and_format palette idxs num_colors =
     (let color_counts = getcolors idxs
      in if color_counts = [] then Inr []
         else let color_counts = sort_reverse color_counts;
                  total_count = sum_list (map fst color_counts)
              in top_colors palette color_counts total_count [0..<num_colors] [])"

subsection \<open>The extractor\<close>

text \<open>Lines 57 to 73: copy, downscale in place, flatten transparency onto white.\<close>

definition prepare :: "pillow \<Rightarrow> ref \<Rightarrow> nat \<Rightarrow> heap \<Rightarrow> ref \<times> heap" where
  "prepare env pil_image resize_for_speed h =
     (let (image, h) = copy pil_image h;
          h = thumbnail env image (resize_for_speed, resize_for_speed) h
      in if im_mode (h ! image) \<in> {Mode_RGBA, Mode_LA}
            \<or> (im_mode (h ! image) = Mode_P \<and> im_transparency (h ! image))
         then let (background, h) = new_rgb (im_size (h ! image)) (255, 255, 255) h;
                  alpha = alpha_band (h ! image);
                  h = paste background (h ! image) alpha h
              in (background, h)
         else convert_rgb image h)"

definition extract_palette_pillow ::
  "pillow \<Rightarrow> ref \<Rightarrow> nat \<Rightarrow> nat \<Rightarrow> heap \<Rightarrow> (error + color_record list) \<times> heap" where
  "extract_palette_pillow env pil_image num_colors resize_for_speed h =
     (let (image, h) = prepare env pil_image resize_for_speed h;
          (palette, idxs) = quantize env (rgb_pixels (h ! image)) num_colors
      in (rank_and_format palette idxs num_colors, h))"

text \<open>
  Names for the intermediate values of a call: the pixels of the downscaled, flattened
  image, the paletted image (palette and index map), the \<open>(count, index)\<close> pairs as
  \<open>getcolors()\<close> lists them, and their sum (\<open>total\<close>, line 90).
\<close>

definition working_pixels :: "pillow \<Rightarrow> ref \<Rightarrow> nat \<Rightarrow> heap \<Rightarrow> rgb list" where
  "working_pixels env pil_image resize_for_speed h =
     (let (image, h) = prepare env pil_image resize_for_speed h in rgb_pixels (h ! image))"

definition paletted :: "pillow \<Rightarrow> ref \<Rightarrow> nat \<Rightarrow> nat \<Rightarrow> heap \<Rightarrow> nat list \<times> nat list" where
  "paletted env pil_image num_colors resize_for_speed h =
     quantize env (working_pixels env pil_image resize_for_speed h) num_colors"

definition color_counts_of :: "pillow \<Rightarrow> ref \<Rightarrow> nat \<Rightarrow> nat \<Rightarrow> heap \<Rightarrow> (nat \<times> nat) list" where
  "color_counts_of env pil_image num_colors resize_for_speed h =
     getcolors (snd (paletted env pil_image num_colors resize_for_speed h))"

definition total_of :: "pillow \<Rightarrow> ref \<Rightarrow> nat \<Rightarrow> nat \<Rightarrow> heap \<Rightarrow> nat" where
  "total_of env pil_image num_colors resize_for_speed h =
     sum_list (map fst (color_counts_of env pil_image num_colors resize_for_speed h))"

subsection \<open>A concrete Pillow for small images\<close>

text \<open>
  To run the extractor on concrete images the two library parameters need values.
  \<open>small_quantize\<close> is a stand-in for Pillow's adaptive quantizer, which is median cut:
  the colours are sorted by decreasing channel value and split into at most \<open>k\<close> boxes,
  the boxes are numbered from the high end, and each box is represented by the rounded mean
  of its pixels. The stand-in covers two cases of it.
  \<^item> The image has at most \<open>k\<close> distinct colours. Every colour ends in a box of its own, so
    the palette holds exactly the colours present, here by decreasing colour. For colours
    that are ordered alike in all three channels (black and white, greys, a single colour)
    this is the numbering of median cut; only such images are run with \<open>k\<close> of 2 or more.
  \<^item> \<open>k = 1\<close>. There is a single box, whose entry is the rounded mean of all pixels.

  With more than \<open>k\<close> colours and \<open>k\<close> of 2 or more median cut makes \<open>k\<close> boxes. The
  stand-in is not median cut there (it keeps the single box), and nothing below runs it on
  such an input. \<open>small_pillow\<close> is meant for images within the size bound, where
  \<open>thumbnail\<close> does not resample.
\<close>

fun index_of :: "'a list \<Rightarrow> 'a \<Rightarrow> nat" where
  "index_of [] x = 0"
| "index_of (y # ys) x = (if x = y then 0 else Suc (index_of ys x))"

definition mean_channel :: "nat list \<Rightarrow> nat" where
  "mean_channel xs = (2 * sum_list xs + length xs) div (2 * length xs)"

definition small_quantize :: "rgb list \<Rightarrow> nat \<Rightarrow> nat list \<times> nat list" where
  "small_quantize pixels k =
     (let colors = rev (sort (remdups pixels))
      in if length colors \<le> k
         then (concat (map (\<lambda>(r, g, b). [r, g, b]) colors), map (index_of colors) pixels)
         else ([mean_channel (map fst pixels),
                mean_channel (map (\<lambda>(r, g, b). g) pixels),
                mean_channel (map (\<lambda>(r, g, b). b) pixels)],
               map (\<lambda>p. 0) pixels))"

definition small_pillow :: pillow where
  "small_pillow = \<lparr>resize = (\<lambda>im box. im), quantize = small_quantize\<rparr>"

definition opaque :: "rgb \<Rightarrow> rgba" where
  "opaque c = (fst c, fst (snd c), snd (snd c), 255)"

definition solid_rgb :: "nat \<Rightarrow> nat \<Rightarrow> rgb \<Rightarrow> image" where
  "solid_rgb w ht c =
     \<lparr>im_mode = Mode_RGB, im_size = (w, ht), im_transparency = False,
      im_data = replicate (w * ht) (opaque c)\<rparr>"

subsection \<open>Ranking order\<close>

text \<open>
  \<open>ranked_before x y\<close>: the pair \<open>x\<close> stands before the pair \<open>y\<close> after
  \<open>sort(reverse=True)\<close>, that is, \<open>x\<close> has the larger count or, with equal counts, the
  larger palette index.
\<close>

definition ranked_before :: "nat \<times> nat \<Rightarrow> nat \<times> nat \<Rightarrow> bool" where
  "ranked_before x y = (fst y < fst x \<or> (fst y = fst x \<and> snd y < snd x))"

subsection \<open>Example images\<close>

definition red_square :: image where
  "red_square = solid_rgb 10 10 (255, 0, 0)"

definition black_white :: image where
  "black_white =
     \<lparr>im_mode = Mode_RGB, im_size = (4, 4), im_transparency = False,
      im_data = replicate 8 (opaque (0, 0, 0)) @ replicate 8 (opaque (255, 255, 255))\<rparr>"

definition two_and_two :: image where
  "two_and_two =
     \<lparr>im_mode = Mode_RGB, im_size = (2, 2), im_transparency = False,
      im_data = [opaque (0, 0, 0), opaque (0, 0, 0),
                 opaque (255, 255, 255), opaque (255, 255, 255)]\<rparr>"

definition three_black_one_white :: image where
  "three_black_one_white =
     \<lparr>im_mode = Mode_RGB, im_size = (2, 2), im_transparency = False,
      im_data = [opaque (0, 0, 0), opaque (0, 0, 0), opaque (0, 0, 0),
                 opaque (255, 255, 255)]\<rparr>"

definition three_red_one_blue :: image where
  "three_red_one_blue =
     \<lparr>im_mode = Mode_RGB, im_size = (2, 2), im_transparency = False,
      im_data = [opaque (255, 0, 0), opaque (255, 0, 0), opaque (255, 0, 0),
                 opaque (0, 0, 255)]\<rparr>"

definition clear_square :: image where
  "clear_square =
     \<lparr>im_mode = Mode_RGBA, im_size = (2, 2), im_transparency = False,
      im_data = replicate 4 (0, 0, 0, 0)\<rparr>"

definition empty_image :: image where
  "empty_image =
     \<lparr>im_mode = Mode_RGB, im_size = (0, 0), im_transparency = False, im_data = []\<rparr>"

section \<open>Auxiliary facts\<close>

subsection \<open>The loop\<close>

lemma top_colors_Inr:
  "top_colors palette cc total_count is acc = Inr rs \<Longrightarrow>
     (\<forall>i\<in>set is. i < length cc) \<and>
     map Inr rs = map Inr acc @ map (\<lambda>i. color_details palette total_count (cc ! i)) is"
proof (induction "is" arbitrary: acc)
  case Nil
  then show ?case by simp
next
  case (Cons i "is")
  from Cons.prems have i: "i < length cc"
    by (simp split: if_splits)
  from Cons.prems i obtain d where d: "color_details palette total_count (cc ! i) = Inr d"
    and rest: "top_colors palette cc total_count is (acc @ [d]) = Inr rs"
    by (auto split: sum.splits)
  from Cons.IH [OF rest] i d show ?case by simp
qed

lemma color_details_Inr:
  "color_details palette tot (c, i) = Inr d \<Longrightarrow>
     count d = c \<and> percent d = py_round (fmul (fdiv c tot) 100) 2 \<and> tot \<noteq> 0
     \<and> rgb d = (palette ! (i * 3), palette ! (i * 3 + 1), palette ! (i * 3 + 2))
     \<and> i * 3 + 2 < length palette"
  by (auto simp: color_details_def Let_def split: if_splits)

lemma color_details_Inl:
  "color_details palette tot ci = Inl e \<Longrightarrow> tot \<noteq> 0 \<Longrightarrow> e = IndexError"
  by (auto simp: color_details_def Let_def split: if_splits prod.splits)

lemma top_colors_Inl:
  "top_colors palette cc tot is acc = Inl e \<Longrightarrow> tot \<noteq> 0 \<Longrightarrow> e = IndexError"
proof (induction "is" arbitrary: acc)
  case Nil
  then show ?case by simp
next
  case (Cons i "is")
  then show ?case
    by (auto split: if_splits sum.splits dest: color_details_Inl)
qed

lemma nth_range_take: "k \<le> length xs \<Longrightarrow> map ((!) xs) [0..<k] = take k xs"
  by (simp add: list_eq_iff_nth_eq)

lemma top_colors_range:
  assumes "top_colors palette cc tot [0..<k] [] = Inr rs"
  shows "k \<le> length cc" and "map Inr rs = map (color_details palette tot) (take k cc)"
proof -
  from top_colors_Inr [OF assms]
  have b: "\<forall>i\<in>set [0..<k]. i < length cc"
    and m: "map Inr rs = map (\<lambda>i. color_details palette tot (cc ! i)) [0..<k]"
    by simp_all
  show k: "k \<le> length cc"
  proof (cases k)
    case 0
    then show ?thesis by simp
  next
    case (Suc n)
    with b have "n < length cc" by simp
    with Suc show ?thesis by simp
  qed
  have "map (\<lambda>i. color_details palette tot (cc ! i)) [0..<k]
          = map (color_details palette tot) (map ((!) cc) [0..<k])"
    by simp
  also have "\<dots> = map (color_details palette tot) (take k cc)"
    using k by (simp only: nth_range_take)
  finally show "map Inr rs = map (color_details palette tot) (take k cc)"
    using m by simp
qed

lemma top_colors_short:
  assumes "length cc < k" and "tot \<noteq> 0"
  shows "top_colors palette cc tot [0..<k] [] = Inl IndexError"
proof (cases "top_colors palette cc tot [0..<k] []")
  case (Inl e)
  with assms(2) show ?thesis by (simp add: top_colors_Inl)
next
  case (Inr rs)
  from top_colors_range(1) [OF Inr] assms(1) show ?thesis by simp
qed

subsection \<open>The histogram\<close>

lemma getcolors_Nil: "getcolors [] = []"
  by (simp add: getcolors_def)

lemma getcolors_positive: "(c, i) \<in> set (getcolors idxs) \<Longrightarrow> 0 < c"
  by (auto simp: getcolors_def)

lemma getcolors_distinct: "distinct (getcolors idxs)"
  by (simp add: getcolors_def distinct_map inj_on_def)

lemma filter_eq_upt: "j < m \<Longrightarrow> filter (\<lambda>i. i = j) [0..<m] = [j]"
proof (induction m)
  case 0
  then show ?case by simp
next
  case (Suc m)
  show ?case
  proof (cases "j = m")
    case True
    then have "filter (\<lambda>i. i = j) [0..<m] = []"
      by (auto simp: filter_empty_conv)
    with True show ?thesis by simp
  next
    case False
    with Suc show ?thesis by simp
  qed
qed

lemma count_list_replicate: "count_list (replicate n j) i = (if i = j then n else 0)"
  by (induction n) auto

lemma getcolors_replicate:
  assumes "0 < n" and "j < 256"
  shows "getcolors (replicate n j) = [(n, j)]"
proof -
  have "filter (\<lambda>i. count_list (replicate n j) i \<noteq> 0) [0..<256] = filter (\<lambda>i. i = j) [0..<256]"
    using assms(1) by (simp add: count_list_replicate)
  also have "\<dots> = [j]"
    using assms(2) by (rule filter_eq_upt)
  finally show ?thesis
    by (simp add: getcolors_def count_list_replicate)
qed

subsection \<open>The sort\<close>

lemma sum_list_take_drop:
  "sum_list (take n xs) + sum_list (drop n xs) = sum_list (xs :: nat list)"
  by (simp flip: sum_list_append)

lemma sum_list_fst_insort:
  "sum_list (map fst (insort x xs)) = fst x + sum_list (map fst (xs :: (nat \<times> nat) list))"
  by (induction xs) simp_all

lemma sum_list_fst_sort:
  "sum_list (map fst (sort xs)) = sum_list (map fst (xs :: (nat \<times> nat) list))"
  by (induction xs) (simp_all add: sum_list_fst_insort)

lemma sort_reverse_sum: "sum_list (map fst (sort_reverse xs)) = sum_list (map fst xs)"
  by (simp add: sort_reverse_def rev_map [symmetric] sum_list_fst_sort)

lemma sort_reverse_set: "set (sort_reverse xs) = set xs"
  by (simp add: sort_reverse_def)

lemma sort_reverse_length: "length (sort_reverse xs) = length xs"
  by (simp add: sort_reverse_def)

lemma sort_reverse_ranked: "distinct xs \<Longrightarrow> sorted_wrt ranked_before (sort_reverse xs)"
proof -
  assume d: "distinct xs"
  have "sorted_wrt (<) (sort xs)"
    using d by (simp add: strict_sorted_iff)
  then have "sorted_wrt (\<lambda>x y. y < x) (rev (sort xs))"
    by (simp add: sorted_wrt_rev)
  then show ?thesis
    unfolding sort_reverse_def
    by (rule sorted_wrt_mono_rel [rotated]) (auto simp: ranked_before_def less_prod_def)
qed

lemma sort_reverse_counts: "sorted_wrt (\<ge>) (map fst (sort_reverse xs))"
proof -
  have "sorted_wrt (\<le>) (sort xs)" by simp
  then have "sorted_wrt (\<lambda>x y. fst x \<le> fst y) (sort xs)"
    by (rule sorted_wrt_mono_rel [rotated]) (auto simp: less_eq_prod_def)
  then have "sorted (map fst (sort xs))"
    by (simp add: sorted_wrt_map)
  then show ?thesis
    by (simp add: sort_reverse_def rev_map [symmetric] sorted_wrt_rev)
qed

subsection \<open>Ranking and formatting\<close>

lemma percent_whole: "0 < n \<Longrightarrow> py_round (fmul (fdiv n n) 100) 2 = 100"
proof -
  assume "0 < n"
  then have "fdiv n n = to_double 1"
    by (simp add: fdiv_def)
  moreover have "py_round (fmul (to_double 1) 100) 2 = 100"
    by code_simp
  ultimately show ?thesis by simp
qed

lemma rank_and_format_Inr:
  assumes "rank_and_format palette idxs k = Inr rs"
  defines "cc \<equiv> sort_reverse (getcolors idxs)"
  shows "length rs \<le> length cc"
    and "cc \<noteq> [] \<Longrightarrow> length rs = k"
    and "map Inr rs = map (color_details palette (sum_list (map fst cc))) (take (length rs) cc)"
proof -
  have "length rs \<le> length cc \<and> (cc \<noteq> [] \<longrightarrow> length rs = k) \<and>
        map Inr rs = map (color_details palette (sum_list (map fst cc))) (take (length rs) cc)"
  proof (cases "getcolors idxs = []")
    case True
    with assms(1) have "rs = []"
      by (simp add: rank_and_format_def)
    with True show ?thesis
      by (simp add: cc_def sort_reverse_def)
  next
    case False
    with assms(1) have t: "top_colors palette cc (sum_list (map fst cc)) [0..<k] [] = Inr rs"
      by (simp add: rank_and_format_def cc_def Let_def)
    from top_colors_range [OF t]
    have k: "k \<le> length cc"
      and m: "map Inr rs = map (color_details palette (sum_list (map fst cc))) (take k cc)"
      by simp_all
    from m have "length (map Inr rs :: (error + color_record) list)
                   = length (map (color_details palette (sum_list (map fst cc))) (take k cc))"
      by simp
    with k have l: "length rs = k" by simp
    with k m show ?thesis by simp
  qed
  then show "length rs \<le> length cc"
    and "cc \<noteq> [] \<Longrightarrow> length rs = k"
    and "map Inr rs = map (color_details palette (sum_list (map fst cc))) (take (length rs) cc)"
    by simp_all
qed

lemma details_counts:
  "map Inr rs = map (color_details palette tot) xs \<Longrightarrow> map count rs = map fst xs"
proof (induction xs arbitrary: rs)
  case Nil
  then show ?case by simp
next
  case (Cons x xs)
  then obtain r rs' where rs: "rs = r # rs'"
    by (cases rs) auto
  with Cons.prems have "color_details palette tot x = Inr r"
    and "map Inr rs' = map (color_details palette tot) xs"
    by simp_all
  with Cons.IH [of rs'] rs show ?case
    by (cases x) (auto dest: color_details_Inr)
qed

lemma details_member:
  "map Inr rs = map (color_details palette tot) xs \<Longrightarrow> r \<in> set rs \<Longrightarrow>
     \<exists>x\<in>set xs. color_details palette tot x = Inr r"
proof -
  assume m: "map Inr rs = map (color_details palette tot) xs" and r: "r \<in> set rs"
  from r have "Inr r \<in> set (map Inr rs :: (error + color_record) list)" by simp
  with m have "Inr r \<in> set (map (color_details palette tot) xs)" by simp
  then show ?thesis by auto
qed

lemma rank_and_format_short:
  assumes "getcolors idxs \<noteq> []" and "length (getcolors idxs) < k"
  shows "rank_and_format palette idxs k = Inl IndexError"
proof -
  obtain c i where ci: "(c, i) \<in> set (getcolors idxs)"
    using assms(1) by (cases "getcolors idxs") auto
  then have "0 < c" by (rule getcolors_positive)
  moreover from ci have "c \<in> set (map fst (getcolors idxs))"
    by force
  then have "c \<le> sum_list (map fst (getcolors idxs))"
    by (simp add: member_le_sum_list)
  ultimately have "sum_list (map fst (sort_reverse (getcolors idxs))) \<noteq> 0"
    by (simp only: sort_reverse_sum)
  moreover have "length (sort_reverse (getcolors idxs)) < k"
    using assms(2) by (simp add: sort_reverse_length)
  ultimately show ?thesis
    using assms(1) by (simp add: rank_and_format_def Let_def top_colors_short)
qed

subsection \<open>The object store\<close>

text \<open>
  Every operation either appends a new object or updates the object it is called on; the
  objects at other references stay as they are.
\<close>

lemma copy_simps:
  "fst (copy r h) = length h"
  "length (snd (copy r h)) = Suc (length h)"
  "i < length h \<Longrightarrow> snd (copy r h) ! i = h ! i"
  by (simp_all add: copy_def nth_append)

lemma thumbnail_simps:
  "length (thumbnail env r box h) = length h"
  "i \<noteq> r \<Longrightarrow> thumbnail env r box h ! i = h ! i"
  by (simp_all add: thumbnail_def Let_def)

lemma new_rgb_simps:
  "fst (new_rgb sz c h) = length h"
  "length (snd (new_rgb sz c h)) = Suc (length h)"
  "i < length h \<Longrightarrow> snd (new_rgb sz c h) ! i = h ! i"
  by (simp_all add: new_rgb_def nth_append)

lemma paste_simps:
  "length (paste r im alpha h) = length h"
  "i \<noteq> r \<Longrightarrow> paste r im alpha h ! i = h ! i"
  by (simp_all add: paste_def)

lemma convert_rgb_simps:
  "fst (convert_rgb r h) = length h"
  "length (snd (convert_rgb r h)) = Suc (length h)"
  "i < length h \<Longrightarrow> snd (convert_rgb r h) ! i = h ! i"
  by (simp_all add: convert_rgb_def nth_append)

lemma prepare_keeps:
  assumes "pil < length h"
  shows "snd (prepare env pil B h) ! pil = h ! pil"
  using assms
  by (simp add: prepare_def Let_def case_prod_beta copy_simps thumbnail_simps new_rgb_simps
        paste_simps convert_rgb_simps)

subsection \<open>The downscaled, flattened image\<close>

lemma flattened_pixels:
  assumes "pil < length h"
    and "fst (im_size (h ! pil)) \<le> B" and "snd (im_size (h ! pil)) \<le> B"
  shows "working_pixels env pil B h =
           (if im_mode (h ! pil) \<in> {Mode_RGBA, Mode_LA}
               \<or> (im_mode (h ! pil) = Mode_P \<and> im_transparency (h ! pil))
            then map (\<lambda>((cr, cg, cb, ca), (sr, sg, sb, sa), m).
                        (blend m cr sr, blend m cg sg, blend m cb sb))
                   (zip (replicate (fst (im_size (h ! pil)) * snd (im_size (h ! pil)))
                           (255, 255, 255, 255 :: nat))
                      (zip (im_data (h ! pil)) (alpha_band (h ! pil))))
            else rgb_pixels (h ! pil))"
  using assms
  by (auto simp: working_pixels_def prepare_def copy_def thumbnail_def new_rgb_def paste_def
        convert_rgb_def rgb_pixels_def Let_def nth_append case_prod_beta)

lemma blend_transparent: "blend 0 255 s = 255"
  by (simp add: blend_def)

lemma blend_opaque: "blend 255 c s = s"
  by (simp add: blend_def)

lemma working_pixels_empty:
  assumes "pil < length h" and "im_data (h ! pil) = []"
    and "fst (im_size (h ! pil)) \<le> B" and "snd (im_size (h ! pil)) \<le> B"
  shows "working_pixels env pil B h = []"
  using flattened_pixels [OF assms(1,3,4), of env] assms(2)
  by (simp add: rgb_pixels_def)

lemma working_pixels_transparent:
  assumes "pil < length h" and "im_mode (h ! pil) = Mode_RGBA"
    and "im_size (h ! pil) = (w, ht)" and "w \<le> B" and "ht \<le> B"
    and "alpha_band (h ! pil) = replicate (w * ht) 0"
  shows "working_pixels env pil B h = replicate (w * ht) (255, 255, 255)"
proof -
  have "length (alpha_band (h ! pil)) = length (im_data (h ! pil))"
    by (simp add: alpha_band_def)
  with assms(6) have l: "length (im_data (h ! pil)) = w * ht"
    by simp
  have f: "fst (im_size (h ! pil)) \<le> B" "snd (im_size (h ! pil)) \<le> B"
    using assms(3-5) by simp_all
  have "working_pixels env pil B h =
          map (\<lambda>((cr, cg, cb, ca), (sr, sg, sb, sa), m).
                 (blend m cr sr, blend m cg sg, blend m cb sb))
            (zip (replicate (w * ht) (255, 255, 255, 255 :: nat))
               (zip (im_data (h ! pil)) (replicate (w * ht) 0)))"
    using flattened_pixels [OF assms(1) f, of env] assms(2,3) by (simp add: assms(6))
  also have "\<dots> = replicate (w * ht) (255, 255, 255)"
    using l
    by (simp add: list_eq_iff_nth_eq case_prod_beta blend_transparent)
  finally show ?thesis .
qed

subsection \<open>The extractor through its stages\<close>

lemma extract_fst:
  "fst (extract_palette_pillow env pil k B h) =
     rank_and_format (fst (paletted env pil k B h)) (snd (paletted env pil k B h)) k"
  by (simp add: extract_palette_pillow_def paletted_def working_pixels_def split: prod.splits)

lemma extract_snd:
  "snd (extract_palette_pillow env pil k B h) = snd (prepare env pil B h)"
  by (simp add: extract_palette_pillow_def case_prod_beta)

lemma paletted_pixels:
  "paletted env pil k B h = quantize env (working_pixels env pil B h) k"
  by (simp add: paletted_def)

lemma total_of_sorted:
  "sum_list (map fst (sort_reverse (color_counts_of env pil k B h))) = total_of env pil k B h"
  by (simp add: total_of_def sort_reverse_sum)

lemma extract_Inr:
  assumes "fst (extract_palette_pillow env pil k B h) = Inr rs"
  defines "cc \<equiv> sort_reverse (color_counts_of env pil k B h)"
  shows "length rs \<le> length cc"
    and "cc \<noteq> [] \<Longrightarrow> length rs = k"
    and "map Inr rs = map (color_details (fst (paletted env pil k B h)) (total_of env pil k B h))
                          (take (length rs) cc)"
  using rank_and_format_Inr [OF assms(1) [unfolded extract_fst]]
  by (simp_all add: cc_def color_counts_of_def total_of_def sort_reverse_sum)

lemma result_length_bounds:
  assumes "fst (extract_palette_pillow env pil k B h) = Inr rs"
  shows "length rs \<le> k" and "length rs \<le> length (color_counts_of env pil k B h)"
proof -
  show "length rs \<le> length (color_counts_of env pil k B h)"
    using extract_Inr(1) [OF assms] by (simp add: sort_reverse_length)
  show "length rs \<le> k"
  proof (cases "sort_reverse (color_counts_of env pil k B h) = []")
    case True
    with extract_Inr(1) [OF assms] show ?thesis by simp
  next
    case False
    with extract_Inr(2) [OF assms] show ?thesis by simp
  qed
qed

lemma one_entry_fails:
  assumes "working_pixels env pil B h = replicate n c" and "0 < n"
    and "snd (quantize env (replicate n c) k) = replicate n j" and "j < 256"
    and "2 \<le> k"
  shows "fst (extract_palette_pillow env pil k B h) = Inl IndexError"
proof -
  have "getcolors (snd (paletted env pil k B h)) = [(n, j)]"
    using assms(1-4) by (simp add: paletted_pixels getcolors_replicate)
  with assms(5) show ?thesis
    by (simp add: extract_fst rank_and_format_short)
qed

section \<open>The claims\<close>

subsection \<open>Concrete runs\<close>

lemma three_black_one_white_two:
  "fst (extract_palette_pillow small_pillow 0 2 800 [three_black_one_white]) =
     Inr [\<lparr>hex = ''#000000'', rgb = (0, 0, 0), count = 3, percent = 75\<rparr>,
          \<lparr>hex = ''#ffffff'', rgb = (255, 255, 255), count = 1, percent = 25\<rparr>]"
  by code_simp

lemma two_and_two_two:
  "fst (extract_palette_pillow small_pillow 0 2 800 [two_and_two]) =
     Inr [\<lparr>hex = ''#000000'', rgb = (0, 0, 0), count = 2, percent = 50\<rparr>,
          \<lparr>hex = ''#ffffff'', rgb = (255, 255, 255), count = 2, percent = 50\<rparr>]"
  by code_simp

subsection \<open>C1: an image of one colour\<close>

text \<open>
  Claim C1 expects, for an image whose downscaled, flattened pixels all have one colour and
  for every \<open>k\<close> from 1 to 20, a single record with percent 100.00; its scenario is a
  solid red 10 by 10 image with \<open>k = 6\<close>. The code does not deliver this. The loop on
  line 95 runs \<open>num_colors\<close> times and reads \<open>color_counts[i]\<close> on line 96 whatever the
  length of the list. A one-colour image has one used palette entry, so for every
  \<open>num_colors\<close> of at least 2 the second iteration raises \<open>IndexError\<close>. The theorem
  holds for any quantizer that gives all pixels of the one-colour image the same index.
\<close>

theorem solid_image_fails:
  assumes "working_pixels env pil_image resize_for_speed h = replicate n c" and "0 < n"
    and "snd (quantize env (replicate n c) num_colors) = replicate n j" and "j < 256"
    and "2 \<le> num_colors"
  shows "fst (extract_palette_pillow env pil_image num_colors resize_for_speed h)
           = Inl IndexError"
  using assms by (rule one_entry_fails)

theorem solid_image_fails_witness:
  "working_pixels small_pillow 0 800 [red_square] = replicate 100 (255, 0, 0) \<and>
   (0 :: nat) < 100 \<and>
   snd (quantize small_pillow (replicate 100 (255, 0, 0)) 6) = replicate 100 0 \<and>
   (0 :: nat) < 256 \<and> (2 :: nat) \<le> 6 \<and>
   fst (extract_palette_pillow small_pillow 0 6 800 [red_square]) = Inl IndexError"
proof -
  have w: "working_pixels small_pillow 0 800 [red_square] = replicate 100 (255, 0, 0)"
    by code_simp
  have q: "snd (quantize small_pillow (replicate 100 (255, 0, 0)) 6) = replicate 100 0"
    by code_simp
  from solid_image_fails [OF w _ q] w q show ?thesis
    by simp
qed

subsection \<open>C2: fewer used palette entries than requested\<close>

text \<open>
  Claim C2 bounds the length of the result by \<open>k\<close> and by the number of distinct colours,
  and says that a palette with fewer than \<open>k\<close> used entries yields fewer than \<open>k\<close>
  records, the call still succeeding. Every list the call returns is at most as long as
  \<open>k\<close> and as the number of used palette entries (lemma \<open>result_length_bounds\<close>).
  But with fewer used entries than \<open>k\<close> the call does not succeed: whenever
  \<open>getcolors()\<close> lists at least one and fewer than \<open>num_colors\<close> entries, the read
  \<open>color_counts[i]\<close> on line 96 raises \<open>IndexError\<close>. The 4 by 4 image with 8 black
  and 8 white pixels and \<open>k = 6\<close> is such a call.
\<close>

theorem fewer_entries_than_requested:
  assumes "color_counts_of env pil_image num_colors resize_for_speed h \<noteq> []"
    and "length (color_counts_of env pil_image num_colors resize_for_speed h) < num_colors"
  shows "fst (extract_palette_pillow env pil_image num_colors resize_for_speed h)
           = Inl IndexError"
  using assms unfolding color_counts_of_def extract_fst
  by (rule rank_and_format_short)

theorem fewer_entries_than_requested_witness:
  "color_counts_of small_pillow 0 6 800 [black_white] \<noteq> [] \<and>
   length (color_counts_of small_pillow 0 6 800 [black_white]) < 6 \<and>
   fst (extract_palette_pillow small_pillow 0 6 800 [black_white]) = Inl IndexError"
proof -
  have c: "color_counts_of small_pillow 0 6 800 [black_white] = [(8, 0), (8, 1)]"
    by code_simp
  from fewer_entries_than_requested [of small_pillow 0 6 800 "[black_white]"] c
  show ?thesis by simp
qed

subsection \<open>C3: an image without pixels\<close>

text \<open>
  Claim C3 says that an image with zero pixels is rejected as a precondition failure before
  the pipeline runs. The code has no such check. It runs the pipeline, \<open>getcolors()\<close>
  lists no entry, and the guard on lines 83 and 84 returns the empty list: the call succeeds
  with \<open>[]\<close>.
\<close>

theorem empty_image_not_rejected:
  "fst (extract_palette_pillow small_pillow 0 6 800 [empty_image]) = Inr []"
  by code_simp

text \<open>
  C3 as amended: for an image with zero pixels (within the size bound, so that it is not
  resampled) the call does not fail and returns the empty list, provided the quantizer
  assigns no index when there is no pixel.
\<close>

theorem empty_image_returns_empty_list:
  assumes "pil_image < length h" and "im_data (h ! pil_image) = []"
    and "fst (im_size (h ! pil_image)) \<le> resize_for_speed"
    and "snd (im_size (h ! pil_image)) \<le> resize_for_speed"
    and "snd (quantize env [] num_colors) = []"
  shows "fst (extract_palette_pillow env pil_image num_colors resize_for_speed h) = Inr []"
proof -
  have "working_pixels env pil_image resize_for_speed h = []"
    using assms(1-4) by (rule working_pixels_empty)
  with assms(5) show ?thesis
    by (simp add: extract_fst paletted_pixels rank_and_format_def getcolors_Nil)
qed

theorem empty_image_returns_empty_list_witness:
  "(0 :: nat) < length [empty_image] \<and> im_data ([empty_image] ! 0) = [] \<and>
   fst (im_size ([empty_image] ! 0)) \<le> 800 \<and> snd (im_size ([empty_image] ! 0)) \<le> 800 \<and>
   snd (quantize small_pillow [] 1) = [] \<and>
   fst (extract_palette_pillow small_pillow 0 1 800 [empty_image]) = Inr []"
proof -
  have q: "snd (quantize small_pillow [] 1) = []"
    by code_simp
  from empty_image_returns_empty_list [of 0 "[empty_image]" 800 small_pillow 1] q
  show ?thesis by (simp add: empty_image_def)
qed

subsection \<open>C4: one colour requested from a two-colour image\<close>

text \<open>
  Claim C4 says that \<open>k = 1\<close> on an image of two colours with unequal counts returns one
  record whose colour is the more frequent of the two; the docstring ("the most dominant
  colors") and the comment on line 75 ("it gives most frequent color") say the same of
  the code. The code does not do this. It quantizes the image to \<open>num_colors = 1\<close> palette
  entries first (line 76) and counts palette indices afterwards (line 82). Whenever the
  quantizer maps every pixel to its one palette entry, the call returns one record that
  stands for all pixels: its colour is that palette entry, its count is the number of all
  pixels and its percent is 100. With the single box of median cut the entry is the mean of
  the pixels: three red pixels and one blue pixel give \<open>(191, 0, 64)\<close> with count 4, a
  colour no pixel has, where the claim expects red.
\<close>

theorem single_color_request:
  assumes "working_pixels env pil_image resize_for_speed h = px" and "px \<noteq> []"
    and "quantize env px 1 = (palette, replicate (length px) j)"
    and "j < 256" and "j * 3 + 2 < length palette"
  shows "fst (extract_palette_pillow env pil_image 1 resize_for_speed h) =
           Inr [\<lparr>hex = ''#'' @ fmt_02x (palette ! (j * 3)) @ fmt_02x (palette ! (j * 3 + 1))
                         @ fmt_02x (palette ! (j * 3 + 2)),
                 rgb = (palette ! (j * 3), palette ! (j * 3 + 1), palette ! (j * 3 + 2)),
                 count = length px, percent = 100\<rparr>]"
proof -
  have n: "0 < length px" using assms(2) by simp
  have p: "paletted env pil_image 1 resize_for_speed h = (palette, replicate (length px) j)"
    using assms(1,3) by (simp add: paletted_pixels)
  have g: "getcolors (replicate (length px) j) = [(length px, j)]"
    using n assms(4) by (rule getcolors_replicate)
  have s: "sort_reverse [(length px, j)] = [(length px, j)]"
    by (simp add: sort_reverse_def)
  have "fst (extract_palette_pillow env pil_image 1 resize_for_speed h)
          = rank_and_format palette (replicate (length px) j) 1"
    by (simp only: extract_fst p fst_conv snd_conv)
  also have "\<dots> =
      Inr [\<lparr>hex = ''#'' @ fmt_02x (palette ! (j * 3)) @ fmt_02x (palette ! (j * 3 + 1))
                    @ fmt_02x (palette ! (j * 3 + 2)),
            rgb = (palette ! (j * 3), palette ! (j * 3 + 1), palette ! (j * 3 + 2)),
            count = length px, percent = 100\<rparr>]"
    using n assms(5)
    by (simp add: rank_and_format_def g s color_details_def Let_def percent_whole)
  finally show ?thesis .
qed

theorem single_color_request_witness:
  "working_pixels small_pillow 0 800 [three_red_one_blue]
     = [(255, 0, 0), (255, 0, 0), (255, 0, 0), (0, 0, 255)] \<and>
   [(255, 0, 0), (255, 0, 0), (255, 0, 0), (0 :: nat, 0 :: nat, 255 :: nat)] \<noteq> [] \<and>
   quantize small_pillow [(255, 0, 0), (255, 0, 0), (255, 0, 0), (0, 0, 255)] 1
     = ([191, 0, 64], [0, 0, 0, 0]) \<and>
   (0 :: nat) < 256 \<and> (0 :: nat) * 3 + 2 < length [191 :: nat, 0, 64] \<and>
   fst (extract_palette_pillow small_pillow 0 1 800 [three_red_one_blue]) =
     Inr [\<lparr>hex = ''#bf0040'', rgb = (191, 0, 64), count = 4, percent = 100\<rparr>]"
proof -
  have w: "working_pixels small_pillow 0 800 [three_red_one_blue]
             = [(255, 0, 0), (255, 0, 0), (255, 0, 0), (0, 0, 255)]"
    by code_simp
  have q: "quantize small_pillow [(255, 0, 0), (255, 0, 0), (255, 0, 0), (0, 0, 255)] 1
             = ([191, 0, 64],
                replicate (length [(255, 0, 0), (255, 0, 0), (255, 0, 0),
                                   (0 :: nat, 0 :: nat, 255 :: nat)]) 0)"
    by code_simp
  have f: "fmt_02x 191 = ''bf''" "fmt_02x 0 = ''00''" "fmt_02x 64 = ''40''"
    by code_simp+
  from single_color_request [OF w _ q] w q f show ?thesis
    by simp
qed

subsection \<open>C5: flattening transparency\<close>

text \<open>
  Claim C5 has two parts. The first, that an image with an alpha channel is composited on a
  white canvas of the same size with the alpha channel as weight, is what lines 63 to 70 do
  (lemma \<open>flattened_pixels\<close>). The second is the scenario of a fully transparent 2 by 2
  image giving a single white record with count 4 and percent 100. The flattened image is
  white throughout, hence has one used palette entry, and the loop of line 95 raises
  \<open>IndexError\<close> for every \<open>num_colors\<close> of at least 2, the default 6 included.
\<close>

theorem transparent_image_fails:
  assumes "pil_image < length h" and "im_mode (h ! pil_image) = Mode_RGBA"
    and "im_size (h ! pil_image) = (w, ht)" and "w \<le> resize_for_speed"
    and "ht \<le> resize_for_speed" and "0 < w * ht"
    and "alpha_band (h ! pil_image) = replicate (w * ht) 0"
    and "snd (quantize env (replicate (w * ht) (255, 255, 255)) num_colors)
           = replicate (w * ht) j"
    and "j < 256" and "2 \<le> num_colors"
  shows "fst (extract_palette_pillow env pil_image num_colors resize_for_speed h)
           = Inl IndexError"
proof -
  have "working_pixels env pil_image resize_for_speed h = replicate (w * ht) (255, 255, 255)"
    using assms(1-5,7) by (rule working_pixels_transparent)
  then show ?thesis
    using assms(6,8-10) by (rule one_entry_fails)
qed

theorem transparent_image_fails_witness:
  "(0 :: nat) < length [clear_square] \<and> im_mode ([clear_square] ! 0) = Mode_RGBA \<and>
   im_size ([clear_square] ! 0) = (2, 2) \<and> (2 :: nat) \<le> 800 \<and> (0 :: nat) < 2 * 2 \<and>
   alpha_band ([clear_square] ! 0) = replicate (2 * 2) 0 \<and>
   snd (quantize small_pillow (replicate (2 * 2) (255, 255, 255)) 6) = replicate (2 * 2) 0 \<and>
   (0 :: nat) < 256 \<and> (2 :: nat) \<le> 6 \<and>
   fst (extract_palette_pillow small_pillow 0 6 800 [clear_square]) = Inl IndexError"
proof -
  have a: "alpha_band ([clear_square] ! 0) = replicate (2 * 2) 0"
    by code_simp
  have q: "snd (quantize small_pillow (replicate (2 * 2) (255, 255, 255)) 6)
             = replicate (2 * 2) 0"
    by code_simp
  have m: "im_mode ([clear_square] ! 0) = Mode_RGBA" "im_size ([clear_square] ! 0) = (2, 2)"
    by (simp_all add: clear_square_def)
  from transparent_image_fails [where pil_image = 0 and h = "[clear_square]" and w = 2
      and ht = 2 and resize_for_speed = 800 and env = small_pillow and num_colors = 6
      and j = 0] a q m
  show ?thesis by simp
qed

subsection \<open>C6: the rounding law\<close>

text \<open>
  Claim C6: every returned record \<open>r\<close> has
  \<open>percent = round(count / totalPixels * 100, 2)\<close>, where \<open>totalPixels\<close> is the sum of
  the counts of all used palette entries, in the float arithmetic of the source.
\<close>

theorem percent_rounding_law:
  assumes "fst (extract_palette_pillow env pil_image num_colors resize_for_speed h) = Inr rs"
    and "r \<in> set rs"
  shows "percent r =
           py_round (fmul (fdiv (count r)
             (total_of env pil_image num_colors resize_for_speed h)) 100) 2"
proof -
  from details_member [OF extract_Inr(3) [OF assms(1)] assms(2)]
  obtain x where "color_details (fst (paletted env pil_image num_colors resize_for_speed h))
                    (total_of env pil_image num_colors resize_for_speed h) x = Inr r"
    by blast
  then show ?thesis
    by (cases x) (auto dest: color_details_Inr)
qed

theorem percent_rounding_law_witness:
  "fst (extract_palette_pillow small_pillow 0 2 800 [three_black_one_white]) =
     Inr [\<lparr>hex = ''#000000'', rgb = (0, 0, 0), count = 3, percent = 75\<rparr>,
          \<lparr>hex = ''#ffffff'', rgb = (255, 255, 255), count = 1, percent = 25\<rparr>] \<and>
   \<lparr>hex = ''#ffffff'', rgb = (255, 255, 255), count = 1, percent = 25\<rparr>
     \<in> set [\<lparr>hex = ''#000000'', rgb = (0, 0, 0), count = 3, percent = 75\<rparr>,
             \<lparr>hex = ''#ffffff'', rgb = (255, 255, 255), count = 1, percent = 25\<rparr>] \<and>
   (25 :: rat) = py_round (fmul (fdiv 1 (total_of small_pillow 0 2 800 [three_black_one_white]))
                     100) 2"
  using percent_rounding_law [OF three_black_one_white_two,
      of "\<lparr>hex = ''#ffffff'', rgb = (255, 255, 255), count = 1, percent = 25\<rparr>"]
    three_black_one_white_two
  by simp

subsection \<open>C7: ranked by count\<close>

text \<open>
  Claim C7: the returned list is sorted by pixel count in non-increasing order.
\<close>

theorem result_sorted_by_count:
  assumes "fst (extract_palette_pillow env pil_image num_colors resize_for_speed h) = Inr rs"
  shows "sorted_wrt (\<ge>) (map count rs)"
proof -
  let ?cc = "sort_reverse (color_counts_of env pil_image num_colors resize_for_speed h)"
  from extract_Inr(3) [OF assms] have "map count rs = map fst (take (length rs) ?cc)"
    by (rule details_counts)
  also have "\<dots> = take (length rs) (map fst ?cc)"
    by (simp add: take_map)
  finally show ?thesis
    using sort_reverse_counts [of "color_counts_of env pil_image num_colors resize_for_speed h"]
    by (simp add: sorted_wrt_take)
qed

theorem result_sorted_by_count_witness:
  "fst (extract_palette_pillow small_pillow 0 2 800 [three_black_one_white]) =
     Inr [\<lparr>hex = ''#000000'', rgb = (0, 0, 0), count = 3, percent = 75\<rparr>,
          \<lparr>hex = ''#ffffff'', rgb = (255, 255, 255), count = 1, percent = 25\<rparr>] \<and>
   sorted_wrt (\<ge>)
     (map count [\<lparr>hex = ''#000000'', rgb = (0, 0, 0), count = 3, percent = 75\<rparr>,
                 \<lparr>hex = ''#ffffff'', rgb = (255, 255, 255), count = 1, percent = 25\<rparr>])"
  using result_sorted_by_count [OF three_black_one_white_two] three_black_one_white_two
  by simp

subsection \<open>C8: the counts against the total\<close>

text \<open>
  Claim C8: the pixel counts of the returned records sum to at most \<open>totalPixels\<close>, the
  sum over all used palette entries, with equality exactly when as many records are
  returned as palette entries are used.
\<close>

theorem counts_sum_bounded:
  assumes "fst (extract_palette_pillow env pil_image num_colors resize_for_speed h) = Inr rs"
  shows "sum_list (map count rs) \<le> total_of env pil_image num_colors resize_for_speed h \<and>
         (sum_list (map count rs) = total_of env pil_image num_colors resize_for_speed h
            \<longleftrightarrow> length rs = length (color_counts_of env pil_image num_colors resize_for_speed h))"
proof -
  let ?cc = "sort_reverse (color_counts_of env pil_image num_colors resize_for_speed h)"
  let ?n = "length rs"
  from extract_Inr(3) [OF assms] have "map count rs = map fst (take ?n ?cc)"
    by (rule details_counts)
  then have s: "sum_list (map count rs) = sum_list (take ?n (map fst ?cc))"
    by (simp add: take_map)
  have t: "sum_list (take ?n (map fst ?cc)) + sum_list (drop ?n (map fst ?cc))
             = total_of env pil_image num_colors resize_for_speed h"
    by (simp only: sum_list_take_drop total_of_sorted)
  have pos: "\<forall>c\<in>set (drop ?n (map fst ?cc)). 0 < c"
  proof
    fix c assume "c \<in> set (drop ?n (map fst ?cc))"
    then have "c \<in> set (map fst ?cc)"
      by (rule in_set_dropD)
    then obtain i where "(c, i) \<in> set (color_counts_of env pil_image num_colors resize_for_speed h)"
      by (auto simp: sort_reverse_set)
    then show "0 < c"
      unfolding color_counts_of_def by (rule getcolors_positive)
  qed
  have z: "sum_list (drop ?n (map fst ?cc)) = 0 \<longleftrightarrow> drop ?n (map fst ?cc) = []"
  proof
    assume "sum_list (drop ?n (map fst ?cc)) = 0"
    then have "\<forall>c\<in>set (drop ?n (map fst ?cc)). c = 0"
      by simp
    with pos show "drop ?n (map fst ?cc) = []"
      by (cases "drop ?n (map fst ?cc)") auto
  qed simp
  have l: "drop ?n (map fst ?cc) = [] \<longleftrightarrow>
             ?n = length (color_counts_of env pil_image num_colors resize_for_speed h)"
    using extract_Inr(1) [OF assms] by (auto simp: sort_reverse_length)
  from s t z l show ?thesis
    by linarith
qed

theorem counts_sum_bounded_witness:
  "fst (extract_palette_pillow small_pillow 0 2 800 [three_black_one_white]) =
     Inr [\<lparr>hex = ''#000000'', rgb = (0, 0, 0), count = 3, percent = 75\<rparr>,
          \<lparr>hex = ''#ffffff'', rgb = (255, 255, 255), count = 1, percent = 25\<rparr>] \<and>
   sum_list (map count
       [\<lparr>hex = ''#000000'', rgb = (0, 0, 0), count = 3, percent = 75\<rparr>,
        \<lparr>hex = ''#ffffff'', rgb = (255, 255, 255), count = 1, percent = 25\<rparr>])
     \<le> total_of small_pillow 0 2 800 [three_black_one_white] \<and>
   total_of small_pillow 0 2 800 [three_black_one_white] = 4 \<and>
   length (color_counts_of small_pillow 0 2 800 [three_black_one_white]) = 2"
proof -
  have c: "color_counts_of small_pillow 0 2 800 [three_black_one_white] = [(1, 0), (3, 1)]"
    by code_simp
  from counts_sum_bounded [OF three_black_one_white_two] three_black_one_white_two c
  show ?thesis by simp
qed

subsection \<open>C9: the caller's image\<close>

text \<open>
  Claim C9: the call never changes the image object it is given. Line 57 copies it; the
  in-place operations, \<open>thumbnail\<close> on line 60 and \<open>paste\<close> on line 69, act on the copy
  and on the new canvas. After the call the store holds the same image at the caller's
  reference, whether the call returns or raises.
\<close>

theorem caller_image_unchanged:
  assumes "pil_image < length h"
  shows "snd (extract_palette_pillow env pil_image num_colors resize_for_speed h) ! pil_image
           = h ! pil_image"
  using assms by (simp add: extract_snd prepare_keeps)

theorem caller_image_unchanged_witness:
  "(0 :: nat) < length [clear_square] \<and>
   snd (extract_palette_pillow small_pillow 0 6 800 [clear_square]) ! 0 = [clear_square] ! 0"
  using caller_image_unchanged [of 0 "[clear_square]" small_pillow 6 800]
  by simp

subsection \<open>C10: ties\<close>

text \<open>
  Claim C10: the records come in the order of the \<open>(count, index)\<close> pairs sorted as
  tuples in reverse, so two used palette entries of equal count appear by decreasing
  palette index, and the order is total. The returned records are the formatted first
  entries of that sorted list, and each entry stands before every later one in the sense of
  \<open>ranked_before\<close>.
\<close>

theorem ties_ranked_by_index:
  assumes "fst (extract_palette_pillow env pil_image num_colors resize_for_speed h) = Inr rs"
  shows "map Inr rs =
           map (color_details (fst (paletted env pil_image num_colors resize_for_speed h))
                  (total_of env pil_image num_colors resize_for_speed h))
               (take (length rs)
                  (sort_reverse (color_counts_of env pil_image num_colors resize_for_speed h))) \<and>
         sorted_wrt ranked_before
           (take (length rs)
              (sort_reverse (color_counts_of env pil_image num_colors resize_for_speed h)))"
proof -
  have "sorted_wrt ranked_before
          (sort_reverse (color_counts_of env pil_image num_colors resize_for_speed h))"
    unfolding color_counts_of_def by (rule sort_reverse_ranked) (rule getcolors_distinct)
  then show ?thesis
    using extract_Inr(3) [OF assms] by (simp add: sorted_wrt_take)
qed

theorem ties_ranked_by_index_witness:
  "fst (extract_palette_pillow small_pillow 0 2 800 [two_and_two]) =
     Inr [\<lparr>hex = ''#000000'', rgb = (0, 0, 0), count = 2, percent = 50\<rparr>,
          \<lparr>hex = ''#ffffff'', rgb = (255, 255, 255), count = 2, percent = 50\<rparr>] \<and>
   sort_reverse (color_counts_of small_pillow 0 2 800 [two_and_two]) = [(2, 1), (2, 0)] \<and>
   sorted_wrt ranked_before [(2, 1), (2, 0)]"
proof -
  have c: "sort_reverse (color_counts_of small_pillow 0 2 800 [two_and_two]) = [(2, 1), (2, 0)]"
    by code_simp
  from ties_ranked_by_index [OF two_and_two_two] two_and_two_two c
  show ?thesis by simp
qed

end
